theory Spec2Isabelle
  imports Main "HOL-Library.Sublist" "HOL-Library.Word"
begin

section \<open>Package aci: unpacking and validating an ACI archive\<close>

text \<open>
  Source: \<^verbatim>\<open>pkg/aci/aci.go\<close>.  The tar stream and the operating system are the
  environment of \<^verbatim>\<open>Extract\<close>: the model receives, for every call of
  \<^verbatim>\<open>tr.Reader.Next()\<close>, either a header or an error, and with each header the
  results the operating system gives to the calls made for that entry.  The end of the
  list is \<^verbatim>\<open>io.EOF\<close>.
\<close>

datatype Header = Header (Name: string) (Typeflag: char)

text \<open>The type flags of \<^verbatim>\<open>archive/tar\<close> that the code or the examples name.\<close>

definition TypeReg :: char where "TypeReg = CHR ''0''"
definition TypeSymlink :: char where "TypeSymlink = CHR ''2''"
definition TypeDir :: char where "TypeDir = CHR ''5''"

text \<open>\<^verbatim>\<open>fileMode := os.FileMode(0755)\<close>, octal.\<close>

definition fileMode :: nat where "fileMode = 7 * 64 + 5 * 8 + 5"

text \<open>
  \<^verbatim>\<open>filepath.Join(dir, hdr.Name)\<close> is kept symbolic: a path is the pair of the
  extraction directory and the entry name.
\<close>

datatype path = Join string string

record os_results =
  create_err :: "string option"
  copy_err :: "string option"
  chmod_err :: "string option"
  mkdirall_err :: "string option"

datatype tar_next = Next Header os_results | NextFail string

text \<open>
  The errors \<^verbatim>\<open>Extract\<close> returns.  \<open>OpenError\<close> and \<open>TempDirError\<close> pass on the
  error of \<^verbatim>\<open>NewCompressedTarReader\<close> and \<^verbatim>\<open>ioutil.TempDir\<close>; the others are the
  \<^verbatim>\<open>fmt.Errorf\<close> values built from \<^verbatim>\<open>ErrNext\<close>, \<^verbatim>\<open>ErrCreatingFile\<close>,
  \<^verbatim>\<open>ErrCopyingFile\<close>, \<^verbatim>\<open>ErrChmod\<close>, \<^verbatim>\<open>ErrMkdirAll\<close> and \<^verbatim>\<open>ErrUntar\<close>, with
  the file or entry name and the underlying error they print.
\<close>

datatype aci_error =
    OpenError string
  | TempDirError string
  | ErrNext string
  | ErrCreatingFile path string
  | ErrCopyingFile path string
  | ErrChmod path string
  | ErrMkdirAll path string
  | ErrUntar string

text \<open>What a run leaves on the file system and which handles it closes on return.\<close>

datatype fs_effect =
    CreatedFile path
  | Copied path
  | Chmodded path nat
  | MadeDir path nat
  | ClosedFile path
  | ClosedReader

fun extract_loop ::
  "string \<Rightarrow> tar_next list \<Rightarrow> fs_effect list \<Rightarrow> (aci_error + string) \<times> fs_effect list"
where
  "extract_loop dir [] log = (Inr dir, log)"
| "extract_loop dir (NextFail e # rest) log = (Inl (ErrNext e), log)"
| "extract_loop dir (Next hdr os # rest) log =
     (let file = Join dir (Name hdr) in
      if Typeflag hdr = TypeReg then
        (case create_err os of
           Some e \<Rightarrow> (Inl (ErrCreatingFile file e), log)
         | None \<Rightarrow>
           (case copy_err os of
              Some e \<Rightarrow> (Inl (ErrCopyingFile file e), log @ [CreatedFile file])
            | None \<Rightarrow>
              (case chmod_err os of
                 Some e \<Rightarrow> (Inl (ErrChmod file e), log @ [CreatedFile file, Copied file])
               | None \<Rightarrow>
                 extract_loop dir rest
                   (log @ [CreatedFile file, Copied file, Chmodded file fileMode]))))
      else if Typeflag hdr = TypeDir then
        (case mkdirall_err os of
           Some e \<Rightarrow> (Inl (ErrMkdirAll file e), log)
         | None \<Rightarrow> extract_loop dir rest (log @ [MadeDir file fileMode]))
      else (Inl (ErrUntar (Name hdr)), log))"

text \<open>
  The deferred calls run on return, last registered first: \<^verbatim>\<open>w.Close()\<close> for every
  file created, then \<^verbatim>\<open>tr.Close()\<close>.
\<close>

fun created_files :: "fs_effect list \<Rightarrow> path list" where
  "created_files [] = []"
| "created_files (CreatedFile p # es) = p # created_files es"
| "created_files (e # es) = created_files es"

definition deferred_closes :: "fs_effect list \<Rightarrow> fs_effect list" where
  "deferred_closes log = map ClosedFile (rev (created_files log)) @ [ClosedReader]"

definition Extract ::
  "string + tar_next list \<Rightarrow> string + string \<Rightarrow> (aci_error + string) \<times> fs_effect list"
where
  "Extract opened tmp =
     (case opened of
        Inl e \<Rightarrow> (Inl (OpenError e), [])
      | Inr items \<Rightarrow>
        (case tmp of
           Inl e \<Rightarrow> (Inl (TempDirError e), deferred_closes [])
         | Inr dir \<Rightarrow>
           (case extract_loop dir items [] of
              (r, log) \<Rightarrow> (r, log @ deferred_closes log))))"

text \<open>An entry that the loop passes without returning.\<close>

fun extracted_ok :: "tar_next \<Rightarrow> bool" where
  "extracted_ok (NextFail e) = False"
| "extracted_ok (Next hdr os) =
     (if Typeflag hdr = TypeReg
      then create_err os = None \<and> copy_err os = None \<and> chmod_err os = None
      else Typeflag hdr = TypeDir \<and> mkdirall_err os = None)"

text \<open>
  Where an effect may come from: a file effect from an entry of type \<open>TypeReg\<close>, a
  directory from an entry of type \<open>TypeDir\<close>, each at the joined path and with mode
  \<open>fileMode\<close>; closing creates nothing.
\<close>

fun has_entry :: "tar_next list \<Rightarrow> string \<Rightarrow> char \<Rightarrow> bool" where
  "has_entry [] n t = False"
| "has_entry (NextFail e # xs) n t = has_entry xs n t"
| "has_entry (Next hdr os # xs) n t = ((Name hdr = n \<and> Typeflag hdr = t) \<or> has_entry xs n t)"

fun effect_allowed :: "string \<Rightarrow> tar_next list \<Rightarrow> fs_effect \<Rightarrow> bool" where
  "effect_allowed dir items (CreatedFile (Join d n)) = (d = dir \<and> has_entry items n TypeReg)"
| "effect_allowed dir items (Copied (Join d n)) = (d = dir \<and> has_entry items n TypeReg)"
| "effect_allowed dir items (Chmodded (Join d n) m) =
     (d = dir \<and> m = fileMode \<and> has_entry items n TypeReg)"
| "effect_allowed dir items (MadeDir (Join d n) m) =
     (d = dir \<and> m = fileMode \<and> has_entry items n TypeDir)"
| "effect_allowed dir items (ClosedFile p) = True"
| "effect_allowed dir items ClosedReader = True"

text \<open>An entry of another type than regular file or directory.\<close>

fun other_type :: "tar_next \<Rightarrow> bool" where
  "other_type (NextFail e) = False"
| "other_type (Next hdr os) = (Typeflag hdr \<noteq> TypeReg \<and> Typeflag hdr \<noteq> TypeDir)"

text \<open>
  The file that a run leaves without its mode: the one at which \<^verbatim>\<open>io.Copy\<close> or
  \<^verbatim>\<open>os.Chmod\<close> failed, given the result of the run.
\<close>

fun left_by :: "aci_error + string \<Rightarrow> path \<Rightarrow> bool" where
  "left_by (Inl (ErrCopyingFile q e)) p = (q = p)"
| "left_by (Inl (ErrChmod q e)) p = (q = p)"
| "left_by r p = False"

text \<open>
  \<^verbatim>\<open>Validate\<close>.  \<^verbatim>\<open>NewCompressedTarReader\<close> returns \<^verbatim>\<open>(nil, err)\<close> when it fails, so
  the reader is an option.  \<^verbatim>\<open>defer tr.Close()\<close> stands before the error check: the
  deferred call runs on every return, and \<^verbatim>\<open>Close\<close> reads a field of its receiver, which
  on the nil reader is a nil pointer dereference that panics.
  \<^verbatim>\<open>specaci.ValidateArchive\<close> is a parameter.
\<close>

datatype 'a go_outcome = Returned 'a | Panicked string

definition nil_dereference :: string where
  "nil_dereference = ''invalid memory address or nil pointer dereference''"

definition run_deferred_Close :: "tar_next list option \<Rightarrow> 'a \<Rightarrow> 'a go_outcome" where
  "run_deferred_Close tr ret =
     (case tr of None \<Rightarrow> Panicked nil_dereference | Some r \<Rightarrow> Returned ret)"

definition Validate ::
  "string + tar_next list \<Rightarrow> (tar_next list \<Rightarrow> string option) \<Rightarrow> string option go_outcome"
where
  "Validate opened ValidateArchive =
     (case opened of
        Inl err \<Rightarrow> run_deferred_Close None (Some err)
      | Inr r \<Rightarrow> run_deferred_Close (Some r) (ValidateArchive r))"

text \<open>An archive for the examples: a directory, a file, a symbolic link, a file.\<close>

definition ok_results :: os_results where
  "ok_results = \<lparr>create_err = None, copy_err = None, chmod_err = None, mkdirall_err = None\<rparr>"

definition sample_archive :: "tar_next list" where
  "sample_archive =
     [Next (Header ''rootfs'' TypeDir) ok_results,
      Next (Header ''manifest'' TypeReg) ok_results,
      Next (Header ''rootfs/link'' TypeSymlink) ok_results,
      Next (Header ''rootfs/later'' TypeReg) ok_results]"

text \<open>Two archives more: two symbolic links; and one file whose copy fails.\<close>

definition two_links :: "tar_next list" where
  "two_links =
     [Next (Header ''a'' TypeSymlink) ok_results, Next (Header ''b'' TypeSymlink) ok_results]"

definition copy_fails :: "tar_next list" where
  "copy_fails =
     [Next (Header ''manifest'' TypeReg) (ok_results\<lparr>copy_err := Some ''no space left on device''\<rparr>)]"

section \<open>Package control: the control section of the global configuration\<close>

text \<open>
  Source: \<^verbatim>\<open>Config\<close> and \<^verbatim>\<open>Config.UnmarshalJSON\<close> of package \<^verbatim>\<open>control\<close>.  The
  plugin section has a decoder of its own and is a type parameter here; a duration is a
  number of nanoseconds.
\<close>

record 'p Config =
  MaxRunningPlugins :: int
  PluginLoadTimeout :: int
  PluginTrust :: int
  AutoDiscoverPath :: string
  KeyringPaths :: string
  CacheExpiration :: int
  Plugins :: 'p
  ListenAddr :: string
  ListenPort :: int

text \<open>
  \<^verbatim>\<open>json.Unmarshal(v, &field)\<close> belongs to the standard library and is a parameter: for
  each type of field, a decoder takes the raw message and gives the error, or how the
  field changes (a JSON null leaves it as it is).
\<close>

record ('v, 'p) json_decoder =
  into_int :: "'v \<Rightarrow> string + (int \<Rightarrow> int)"
  into_string :: "'v \<Rightarrow> string + (string \<Rightarrow> string)"
  into_Duration :: "'v \<Rightarrow> string + (int \<Rightarrow> int)"
  into_pluginConfig :: "'v \<Rightarrow> string + ('p \<Rightarrow> 'p)"

text \<open>
  The errors of \<^verbatim>\<open>UnmarshalJSON\<close>: \<open>JSONError err\<close> is \<^verbatim>\<open>return err\<close>;
  \<open>WhileParsing err f\<close> is \<^verbatim>\<open>fmt.Errorf("%v (while parsing 'f')", err)\<close>;
  \<open>UnrecognizedKey k\<close> is
  \<^verbatim>\<open>fmt.Errorf("Unrecognized key '%v' in global config file while parsing 'control'", k)\<close>.
\<close>

datatype config_error =
    JSONError string
  | WhileParsing string string
  | UnrecognizedKey string

text \<open>
  The loop \<^verbatim>\<open>for k, v := range t\<close>.  The list is the map \<^verbatim>\<open>t\<close> in the order in which
  this run of the loop meets its keys; Go fixes no order.
\<close>

fun unmarshal_fields ::
  "('v, 'p) json_decoder \<Rightarrow> (string \<times> 'v) list \<Rightarrow> 'p Config \<Rightarrow> config_error option \<times> 'p Config"
where
  "unmarshal_fields dec [] c = (None, c)"
| "unmarshal_fields dec ((k, v) # kvs) c =
     (if k = ''max_running_plugins'' then
        (case into_int dec v of
           Inl err \<Rightarrow> (Some (WhileParsing err ''control::max_running_plugins''), c)
         | Inr f \<Rightarrow> unmarshal_fields dec kvs (c\<lparr>MaxRunningPlugins := f (MaxRunningPlugins c)\<rparr>))
      else if k = ''plugin_load_timeout'' then
        (case into_int dec v of
           Inl err \<Rightarrow> (Some (WhileParsing err ''control::plugin_load_timeout''), c)
         | Inr f \<Rightarrow> unmarshal_fields dec kvs (c\<lparr>PluginLoadTimeout := f (PluginLoadTimeout c)\<rparr>))
      else if k = ''plugin_trust_level'' then
        (case into_int dec v of
           Inl err \<Rightarrow> (Some (WhileParsing err ''control::plugin_trust_level''), c)
         | Inr f \<Rightarrow> unmarshal_fields dec kvs (c\<lparr>PluginTrust := f (PluginTrust c)\<rparr>))
      else if k = ''auto_discover_path'' then
        (case into_string dec v of
           Inl err \<Rightarrow> (Some (WhileParsing err ''control::auto_discover_path''), c)
         | Inr f \<Rightarrow> unmarshal_fields dec kvs (c\<lparr>AutoDiscoverPath := f (AutoDiscoverPath c)\<rparr>))
      else if k = ''keyring_paths'' then
        (case into_string dec v of
           Inl err \<Rightarrow> (Some (WhileParsing err ''control::keyring_paths''), c)
         | Inr f \<Rightarrow> unmarshal_fields dec kvs (c\<lparr>KeyringPaths := f (KeyringPaths c)\<rparr>))
      else if k = ''cache_expiration'' then
        (case into_Duration dec v of
           Inl err \<Rightarrow> (Some (WhileParsing err ''control::cache_expiration''), c)
         | Inr f \<Rightarrow> unmarshal_fields dec kvs (c\<lparr>CacheExpiration := f (CacheExpiration c)\<rparr>))
      else if k = ''plugins'' then
        (case into_pluginConfig dec v of
           Inl err \<Rightarrow> (Some (JSONError err), c)
         | Inr f \<Rightarrow> unmarshal_fields dec kvs (c\<lparr>Plugins := f (Plugins c)\<rparr>))
      else if k = ''listen_addr'' then
        (case into_string dec v of
           Inl err \<Rightarrow> (Some (JSONError err), c)
         | Inr f \<Rightarrow> unmarshal_fields dec kvs (c\<lparr>ListenAddr := f (ListenAddr c)\<rparr>))
      else if k = ''listen_port'' then
        (case into_int dec v of
           Inl err \<Rightarrow> (Some (JSONError err), c)
         | Inr f \<Rightarrow> unmarshal_fields dec kvs (c\<lparr>ListenPort := f (ListenPort c)\<rparr>))
      else (Some (UnrecognizedKey k), c))"

text \<open>
  \<^verbatim>\<open>UnmarshalJSON\<close>: the input is what \<^verbatim>\<open>json.Unmarshal(data, &t)\<close> makes of the bytes,
  an error or the map of raw messages.  The result is the error returned (\<open>None\<close> is
  \<^verbatim>\<open>nil\<close>) and the configuration as the receiver holds it then.
\<close>

definition UnmarshalJSON ::
  "('v, 'p) json_decoder \<Rightarrow> string + (string \<times> 'v) list \<Rightarrow> 'p Config \<Rightarrow>
   config_error option \<times> 'p Config"
where
  "UnmarshalJSON dec data c =
     (case data of
        Inl err \<Rightarrow> (Some (JSONError err), c)
      | Inr t \<Rightarrow> unmarshal_fields dec t c)"

text \<open>The keys of the \<^verbatim>\<open>switch\<close>, and whether the value given for a key decodes.\<close>

definition recognised_keys :: "string list" where
  "recognised_keys =
     [''max_running_plugins'', ''plugin_load_timeout'', ''plugin_trust_level'',
      ''auto_discover_path'', ''keyring_paths'', ''cache_expiration'', ''plugins'',
      ''listen_addr'', ''listen_port'']"

definition parses :: "('v, 'p) json_decoder \<Rightarrow> string \<Rightarrow> 'v \<Rightarrow> bool" where
  "parses dec k v =
     (if k \<in> set [''max_running_plugins'', ''plugin_load_timeout'', ''plugin_trust_level'',
                  ''listen_port'']
      then \<not> isl (into_int dec v)
      else if k \<in> set [''auto_discover_path'', ''keyring_paths'', ''listen_addr'']
      then \<not> isl (into_string dec v)
      else if k = ''cache_expiration'' then \<not> isl (into_Duration dec v)
      else if k = ''plugins'' then \<not> isl (into_pluginConfig dec v)
      else True)"

fun key_ok :: "('v, 'p) json_decoder \<Rightarrow> string \<times> 'v \<Rightarrow> bool" where
  "key_ok dec (k, v) = (k \<in> set recognised_keys \<and> parses dec k v)"

text \<open>
  Raw messages and a decoder for the examples: a number decodes into an integer field,
  a string into a string field, null leaves a field as it is, and anything else is the
  type error of \<^verbatim>\<open>encoding/json\<close>.  Durations and plugin sections take null only.
\<close>

datatype raw_json = JNull | JNumber int | JString string

definition type_error :: string where
  "type_error = ''json: cannot unmarshal value into Go value of this type''"

definition sample_decoder :: "(raw_json, unit) json_decoder" where
  "sample_decoder =
     \<lparr>into_int = (\<lambda>v. case v of JNull \<Rightarrow> Inr (\<lambda>old. old) | JNumber n \<Rightarrow> Inr (\<lambda>old. n)
                       | JString s \<Rightarrow> Inl type_error),
      into_string = (\<lambda>v. case v of JNull \<Rightarrow> Inr (\<lambda>old. old) | JString s \<Rightarrow> Inr (\<lambda>old. s)
                       | JNumber n \<Rightarrow> Inl type_error),
      into_Duration = (\<lambda>v. case v of JNull \<Rightarrow> Inr (\<lambda>old. old) | _ \<Rightarrow> Inl type_error),
      into_pluginConfig = (\<lambda>v. case v of JNull \<Rightarrow> Inr (\<lambda>old. old) | _ \<Rightarrow> Inl type_error)\<rparr>"

text \<open>\<^verbatim>\<open>GetDefaultConfig\<close>, with the plugin section left abstract.\<close>

definition GetDefaultConfig :: "unit Config" where
  "GetDefaultConfig =
     \<lparr>MaxRunningPlugins = 3, PluginLoadTimeout = 3, PluginTrust = 1,
      AutoDiscoverPath = [], KeyringPaths = [], CacheExpiration = 500 * 1000000,
      Plugins = (), ListenAddr = ''127.0.0.1'', ListenPort = 8082\<rparr>"

section \<open>Package rest: the task handlers\<close>

text \<open>Source: the task handlers of package \<^verbatim>\<open>rest\<close> and \<^verbatim>\<open>TaskWatchHandler\<close>.\<close>

definition ErrStreamingUnsupported :: string where
  "ErrStreamingUnsupported = ''Streaming unsupported''"

definition ErrTaskNotFound :: string where
  "ErrTaskNotFound = ''Task not found''"

definition ErrTaskDisabledNotRunnable :: string where
  "ErrTaskDisabledNotRunnable = ''Task is disabled. Cannot be started''"

text \<open>\<^verbatim>\<open>strings.Contains(s, substr)\<close>.\<close>

fun strings_Contains :: "string \<Rightarrow> string \<Rightarrow> bool" where
  "strings_Contains [] substr = (substr = [])"
| "strings_Contains (c # s) substr = (prefix substr (c # s) \<or> strings_Contains s substr)"

text \<open>
  A \<^verbatim>\<open>core.Metric\<close> is read through its four methods; \<open>metric_Namespace\<close> is the string
  that \<^verbatim>\<open>Namespace().String()\<close> gives.  \<^verbatim>\<open>rbody.StreamedMetric\<close> and
  \<^verbatim>\<open>rbody.StreamedTaskEvent\<close> are the structs sent to the client, and \<open>EventType\<close> has
  the constants of \<^verbatim>\<open>rbody\<close> that the handlers use.
\<close>

datatype 'd Metric =
  Metric (metric_Namespace: string) (metric_Data: 'd) (metric_Timestamp: int)
    (metric_Tags: "(string \<times> string) list")

datatype 'd StreamedMetric =
  StreamedMetric (Namespace: string) (Data: 'd) (Timestamp: int) (Tags: "(string \<times> string) list")

datatype EventType =
    TaskWatchStreamOpen
  | TaskWatchMetricEvent
  | TaskWatchTaskDisabled
  | TaskWatchTaskStarted
  | TaskWatchTaskStopped

datatype 'd StreamedTaskEvent =
  StreamedTaskEvent (EventType: EventType) (Message: string) (Event: "'d StreamedMetric list")

text \<open>
  The four methods of \<^verbatim>\<open>TaskWatchHandler\<close>.  Each sends one event on \<^verbatim>\<open>mChan\<close>; the
  model gives the event sent.
\<close>

definition CatchCollection :: "'d Metric list \<Rightarrow> 'd StreamedTaskEvent" where
  "CatchCollection m =
     StreamedTaskEvent TaskWatchMetricEvent []
       (map (\<lambda>x. StreamedMetric (metric_Namespace x) (metric_Data x) (metric_Timestamp x)
                   (metric_Tags x)) m)"

definition CatchTaskStarted :: "'d StreamedTaskEvent" where
  "CatchTaskStarted = StreamedTaskEvent TaskWatchTaskStarted [] []"

definition CatchTaskStopped :: "'d StreamedTaskEvent" where
  "CatchTaskStopped = StreamedTaskEvent TaskWatchTaskStopped [] []"

definition CatchTaskDisabled :: "string \<Rightarrow> 'd StreamedTaskEvent" where
  "CatchTaskDisabled why = StreamedTaskEvent TaskWatchTaskDisabled why []"

text \<open>A call of the scheduler on the handler, and the event the handler sends for it.\<close>

datatype 'd catch_call =
    CallCatchCollection "'d Metric list"
  | CallCatchTaskStarted
  | CallCatchTaskStopped
  | CallCatchTaskDisabled string

fun sent_for :: "'d catch_call \<Rightarrow> 'd StreamedTaskEvent" where
  "sent_for (CallCatchCollection m) = CatchCollection m"
| "sent_for CallCatchTaskStarted = CatchTaskStarted"
| "sent_for CallCatchTaskStopped = CatchTaskStopped"
| "sent_for (CallCatchTaskDisabled why) = CatchTaskDisabled why"

text \<open>
  Modelled from the spec: the event type tags of the wire surface (section 6).  The
  constants of \<^verbatim>\<open>rbody\<close> are used by the handlers but declared outside the sources.
\<close>

datatype wire_tag =
    TaskStarted
  | TaskStopped
  | TaskDisabled
  | TaskEnabled
  | MetricsCollected
  | MetricsGatheredMiss
  | ProcessError
  | MetricPublishError

text \<open>
  The tag that each constant of \<^verbatim>\<open>rbody\<close> stands for, by its name.  The event that
  opens the stream is written by \<^verbatim>\<open>watchTask\<close> itself and is no event of the task.
\<close>

fun tag_of :: "EventType \<Rightarrow> wire_tag option" where
  "tag_of TaskWatchStreamOpen = None"
| "tag_of TaskWatchMetricEvent = Some MetricsCollected"
| "tag_of TaskWatchTaskDisabled = Some TaskDisabled"
| "tag_of TaskWatchTaskStarted = Some TaskStarted"
| "tag_of TaskWatchTaskStopped = Some TaskStopped"

definition delivered_tags :: "wire_tag set" where
  "delivered_tags = {t. \<exists>c :: unit catch_call. tag_of (EventType (sent_for c)) = Some t}"















section \<open>The scheduler: subscribing the dependencies of a task\<close>

text \<open>
  Source: the manager \<^verbatim>\<open>subscriptionManager\<close> of the scheduler's distributed tests, with
  its two methods, and the workflow that \<^verbatim>\<open>dsWFMap\<close> builds there.  The two counters
  are Go \<^verbatim>\<open>int\<close>s, 64 bits wide on the platforms the build scripts target, and
  \<^verbatim>\<open>+= 1\<close> wraps around.
\<close>

record subscriptionManager =
  Fail :: bool
  SubscribeCallCount :: "64 word"
  UnsubscribeCallCount :: "64 word"

text \<open>
  Modelled from the spec: the error kinds of section 7 that this part needs; the errors
  of the scheduler are declared outside the sources.  \<open>Error\<close> is the text of an error;
  for the two kinds that the handlers of package \<^verbatim>\<open>rest\<close> tell apart it is the text
  they look for, and the manager of the tests gives the text of a failed subscription.
\<close>

datatype serror =
    TaskNotFound
  | TaskDisabledNotRunnable
  | SubscribeError string
  | RemoteUnavailable string

fun Error :: "serror \<Rightarrow> string" where
  "Error TaskNotFound = ErrTaskNotFound"
| "Error TaskDisabledNotRunnable = ErrTaskDisabledNotRunnable"
| "Error (SubscribeError msg) = msg"
| "Error (RemoteUnavailable addr) = ''remote unavailable: '' @ addr"

definition SubscribeDeps :: "subscriptionManager \<Rightarrow> serror list \<times> subscriptionManager" where
  "SubscribeDeps m =
     (if Fail m then ([SubscribeError ''error''], m)
      else ([], m\<lparr>SubscribeCallCount := SubscribeCallCount m + 1\<rparr>))"

definition UnsubscribeDeps :: "subscriptionManager \<Rightarrow> serror list \<times> subscriptionManager" where
  "UnsubscribeDeps m = ([], m\<lparr>UnsubscribeCallCount := UnsubscribeCallCount m + 1\<rparr>)"

text \<open>
  A workflow: the metrics requested of the collect root, and under it process nodes
  (with children) and publish nodes, each with name, version, configuration and target
  address; the empty address is the local manager.
\<close>

datatype wf_node =
    ProcessNode string int "(string \<times> string) list" string "wf_node list"
  | PublishNode string int "(string \<times> string) list" string

datatype workflow =
  Workflow (requested: "(string \<times> int) list") (collect_config: "(string \<times> (string \<times> string) list) list")
    (nodes: "wf_node list")

text \<open>\<^verbatim>\<open>dsWFMap\<close>; the argument is the target that \<^verbatim>\<open>fmt.Sprintf("127.0.0.1:%v", port)\<close> gives.\<close>

definition dsWFMap :: "string \<Rightarrow> workflow" where
  "dsWFMap target =
     Workflow [(''/intel/mock/foo'', 2)] [(''/intel/mock/foo'', [(''password'', ''required'')])]
       [ProcessNode ''passthru'' (- 1) [] target
          [PublishNode ''mock-file'' (- 1) [(''file'', ''/dev/null'')] []]]"

fun node_targets :: "wf_node \<Rightarrow> string list" where
  "node_targets (PublishNode name version config target) = [target]"
| "node_targets (ProcessNode name version config target children) =
     target # concat (map node_targets children)"

text \<open>
  Modelled from the spec: the grouping of the nodes of a workflow by target address
  (section 4.E), which gives every address the workflow touches once.  The collect root
  is local.
\<close>

definition addresses :: "workflow \<Rightarrow> string list" where
  "addresses w = remdups ([] # concat (map node_targets (nodes w)))"

text \<open>Modelled from the spec: the states of the task state machine (section 4.G).\<close>

datatype task_state = Created | Spin | Stopped | Disabled | Removed

text \<open>
  Modelled from the spec: the task (section 3), whose type is missing from the sources,
  with its state, its workflow, its registry of managers by address (section 4.D; the
  tests fill it through \<^verbatim>\<open>RemoteManagers.Add\<close>) and its subscription receipts, the
  addresses it is subscribed at.
\<close>

record task =
  task_state :: task_state
  task_workflow :: workflow
  RemoteManagers :: "string \<rightharpoonup> subscriptionManager"
  subscribed :: "string list"

text \<open>Modelled from the spec: the task table that the scheduler owns (section 4.H).\<close>

record scheduler =
  tasks :: "string \<rightharpoonup> task"

text \<open>
  A call that the subscription manager makes on the manager at an address: a
  \<^verbatim>\<open>SubscribeDeps\<close>, with whether it returned no error, or an \<^verbatim>\<open>UnsubscribeDeps\<close>.
\<close>

datatype manager_call = SubscribeDepsCall string bool | UnsubscribeDepsCall string

text \<open>
  Modelled from the spec: the compensation of the subscription manager (section 4.E),
  which is missing from the sources: \<^verbatim>\<open>UnsubscribeDeps\<close> on each of the given
  addresses, with the errors collected and the calls made.  An address without a manager
  cannot be called.
\<close>

fun unsubscribe_all ::
  "string list \<Rightarrow> (string \<rightharpoonup> subscriptionManager) \<Rightarrow>
   serror list \<times> (string \<rightharpoonup> subscriptionManager) \<times> manager_call list"
where
  "unsubscribe_all [] rm = ([], rm, [])"
| "unsubscribe_all (k # ks) rm =
     (case rm k of
        None \<Rightarrow> unsubscribe_all ks rm
      | Some m \<Rightarrow>
          (case UnsubscribeDeps m of
             (uerrs, m') \<Rightarrow>
               (case unsubscribe_all ks (rm(k \<mapsto> m')) of
                  (errs, rm', calls) \<Rightarrow> (uerrs @ errs, rm', UnsubscribeDepsCall k # calls))))"

text \<open>
  Modelled from the spec: the loop of the subscription manager's \<^verbatim>\<open>Prepare\<close>
  (section 4.E), which is missing from the sources.  It calls \<^verbatim>\<open>SubscribeDeps\<close> once
  for each address; an address without a reachable manager is the single error
  \<open>RemoteUnavailable\<close> (sections 4.C and 4.D).  When an address gives an error,
  \<^verbatim>\<open>UnsubscribeDeps\<close> is called on every address subscribed so far, including the
  failing one, and then the errors are returned.  The result has the errors or the
  addresses subscribed, the managers as they are then, and the calls made, in order.
\<close>

fun subscribe_all ::
  "string list \<Rightarrow> string list \<Rightarrow> (string \<rightharpoonup> subscriptionManager) \<Rightarrow>
   (serror list + string list) \<times> (string \<rightharpoonup> subscriptionManager) \<times> manager_call list"
where
  "subscribe_all [] subbed rm = (Inr subbed, rm, [])"
| "subscribe_all (k # ks) subbed rm =
     (case rm k of
        None \<Rightarrow>
          (case unsubscribe_all (subbed @ [k]) rm of
             (uerrs, rm', calls) \<Rightarrow> (Inl (RemoteUnavailable k # uerrs), rm', calls))
      | Some m \<Rightarrow>
          (case SubscribeDeps m of
             (errs, m') \<Rightarrow>
               if errs \<noteq> [] then
                 (case unsubscribe_all (subbed @ [k]) (rm(k \<mapsto> m')) of
                    (uerrs, rm', calls) \<Rightarrow>
                      (Inl (errs @ uerrs), rm', SubscribeDepsCall k False # calls))
               else
                 (case subscribe_all ks (subbed @ [k]) (rm(k \<mapsto> m')) of
                    (r, rm', calls) \<Rightarrow> (r, rm', SubscribeDepsCall k True # calls))))"

text \<open>
  Modelled from the spec: \<^verbatim>\<open>Prepare\<close> (section 4.E), missing from the sources: the loop
  over the addresses of the task's workflow, from no subscription.
\<close>

definition Prepare ::
  "task \<Rightarrow>
   (serror list + string list) \<times> (string \<rightharpoonup> subscriptionManager) \<times> manager_call list"
where
  "Prepare t = subscribe_all (addresses (task_workflow t)) [] (RemoteManagers t)"

text \<open>
  Modelled from the spec: \<^verbatim>\<open>StartTask\<close> of the scheduler (sections 4.G, 4.H and 7), which
  is missing from the sources.  An unknown id and a disabled task are rejected without
  any change.  Otherwise \<^verbatim>\<open>Prepare\<close> runs; on an error the task keeps its state and the
  errors are returned, else the task is subscribed and spins, which stands for its
  ticker.
\<close>

definition StartTask :: "scheduler \<Rightarrow> string \<Rightarrow> serror list \<times> scheduler" where
  "StartTask s tid =
     (case tasks s tid of
        None \<Rightarrow> ([TaskNotFound], s)
      | Some t \<Rightarrow>
          if task_state t = Disabled then ([TaskDisabledNotRunnable], s)
          else
            (case Prepare t of
               (Inl errs, rm', calls) \<Rightarrow>
                 (errs, s\<lparr>tasks := (tasks s)(tid \<mapsto> t\<lparr>RemoteManagers := rm'\<rparr>)\<rparr>)
             | (Inr subbed, rm', calls) \<Rightarrow>
                 ([], s\<lparr>tasks := (tasks s)
                         (tid \<mapsto> t\<lparr>RemoteManagers := rm', subscribed := subbed,
                                  task_state := Spin\<rparr>)\<rparr>)))"

text \<open>
  \<^verbatim>\<open>Server.startTask\<close> of package \<^verbatim>\<open>rest\<close>, from the source: the status code of the
  response for the errors that \<^verbatim>\<open>StartTask\<close> returned, given by their texts.  The empty
  list is \<^verbatim>\<open>nil\<close>.
\<close>

definition startTask :: "string list \<Rightarrow> nat" where
  "startTask errs =
     (case errs of
        [] \<Rightarrow> 200
      | e # es \<Rightarrow>
          if strings_Contains e ErrTaskNotFound then 404
          else if strings_Contains e ErrTaskDisabledNotRunnable then 409
          else 500)"

text \<open>
  The number of \<^verbatim>\<open>SubscribeDeps\<close> calls made on an address, the number of those that
  returned no error, and the number of \<^verbatim>\<open>UnsubscribeDeps\<close> calls made on it.
\<close>

fun subscribe_calls :: "manager_call list \<Rightarrow> string \<Rightarrow> nat" where
  "subscribe_calls [] a = 0"
| "subscribe_calls (SubscribeDepsCall k ok # cs) a =
     (if k = a then 1 else 0) + subscribe_calls cs a"
| "subscribe_calls (UnsubscribeDepsCall k # cs) a = subscribe_calls cs a"

fun successful_subscribes :: "manager_call list \<Rightarrow> string \<Rightarrow> nat" where
  "successful_subscribes [] a = 0"
| "successful_subscribes (SubscribeDepsCall k ok # cs) a =
     (if k = a \<and> ok then 1 else 0) + successful_subscribes cs a"
| "successful_subscribes (UnsubscribeDepsCall k # cs) a = successful_subscribes cs a"

fun unsubscribe_calls :: "manager_call list \<Rightarrow> string \<Rightarrow> nat" where
  "unsubscribe_calls [] a = 0"
| "unsubscribe_calls (SubscribeDepsCall k ok # cs) a = unsubscribe_calls cs a"
| "unsubscribe_calls (UnsubscribeDepsCall k # cs) a =
     (if k = a then 1 else 0) + unsubscribe_calls cs a"


text \<open>
  The tasks of the examples: the workflow of \<^verbatim>\<open>dsWFMap\<close> with a local manager that
  fails and a remote manager that subscribes, as in the second case of
  \<^verbatim>\<open>TestDistributedSubscriptions\<close>; and a disabled task.
\<close>

definition fresh_manager :: "bool \<Rightarrow> subscriptionManager" where
  "fresh_manager fail = \<lparr>Fail = fail, SubscribeCallCount = 0, UnsubscribeCallCount = 0\<rparr>"

definition sample_task :: task where
  "sample_task =
     \<lparr>task_state = Created, task_workflow = dsWFMap ''127.0.0.1:8082'',
      RemoteManagers = [[] \<mapsto> fresh_manager True, ''127.0.0.1:8082'' \<mapsto> fresh_manager False],
      subscribed = []\<rparr>"

definition sample_scheduler :: scheduler where
  "sample_scheduler =
     \<lparr>tasks = [''t1'' \<mapsto> sample_task, ''t2'' \<mapsto> sample_task\<lparr>task_state := Disabled\<rparr>]\<rparr>"

text \<open>
  The calls of \<^verbatim>\<open>Prepare\<close> on the task of the examples: the remote manager subscribes, the
  local one fails, and both are unsubscribed.
\<close>

definition sample_calls :: "manager_call list" where
  "sample_calls =
     [SubscribeDepsCall ''127.0.0.1:8082'' True, SubscribeDepsCall [] False,
      UnsubscribeDepsCall ''127.0.0.1:8082'', UnsubscribeDepsCall []]"

section \<open>Properties of package aci\<close>

lemma extract_loop_prefix_ok:
  "\<forall>x \<in> set pre. extracted_ok x \<Longrightarrow>
   \<exists>log'. extract_loop dir (pre @ rest) log = extract_loop dir rest log'"
proof (induction pre arbitrary: log)
  case Nil
  then show ?case by auto
next
  case (Cons x pre)
  then obtain hdr os where x: "x = Next hdr os"
    by (cases x) auto
  from Cons.prems have ok: "extracted_ok (Next hdr os)" and rest_ok: "\<forall>y \<in> set pre. extracted_ok y"
    by (auto simp: x)
  show ?case
  proof (cases "Typeflag hdr = TypeReg")
    case True
    with ok have "extract_loop dir ((x # pre) @ rest) log =
        extract_loop dir (pre @ rest)
          (log @ [CreatedFile (Join dir (Name hdr)), Copied (Join dir (Name hdr)),
                  Chmodded (Join dir (Name hdr)) fileMode])"
      by (simp add: x Let_def)
    with Cons.IH [OF rest_ok] show ?thesis by metis
  next
    case False
    with ok have "extract_loop dir ((x # pre) @ rest) log =
        extract_loop dir (pre @ rest) (log @ [MadeDir (Join dir (Name hdr)) fileMode])"
      by (simp add: x Let_def)
    with Cons.IH [OF rest_ok] show ?thesis by metis
  qed
qed

lemma has_entry_append:
  "has_entry (xs @ ys) n t = (has_entry xs n t \<or> has_entry ys n t)"
  by (induction xs n t rule: has_entry.induct) auto

lemma effect_allowed_mono:
  "effect_allowed dir ys e \<Longrightarrow> effect_allowed dir (xs @ ys) e"
  by (induction dir ys e rule: effect_allowed.induct) (auto simp: has_entry_append)

lemma extract_loop_effects:
  "\<forall>e \<in> set log. effect_allowed dir (seen @ items) e \<Longrightarrow>
   \<forall>e \<in> set (snd (extract_loop dir items log)). effect_allowed dir (seen @ items) e"
proof (induction dir items log arbitrary: seen rule: extract_loop.induct)
  case (1 dir log)
  then show ?case by simp
next
  case (2 dir e rest log)
  then show ?case by simp
next
  case (3 dir hdr os rest log)
  let ?all = "seen @ Next hdr os # rest"
  have all: "?all = (seen @ [Next hdr os]) @ rest" by simp
  show ?case
  proof (cases "Typeflag hdr = TypeReg")
    case True
    have here: "has_entry ?all (Name hdr) TypeReg"
      using True by (simp add: has_entry_append)
    show ?thesis
    proof (cases "create_err os = None \<and> copy_err os = None \<and> chmod_err os = None")
      case ok: True
      let ?log' = "log @ [CreatedFile (Join dir (Name hdr)), Copied (Join dir (Name hdr)),
                          Chmodded (Join dir (Name hdr)) fileMode]"
      have "\<forall>e \<in> set ?log'. effect_allowed dir ((seen @ [Next hdr os]) @ rest) e"
        using "3.prems" here by auto
      from "3.IH"(1) [OF refl True _ _ _ this] ok
      have "\<forall>e \<in> set (snd (extract_loop dir rest ?log')).
              effect_allowed dir ((seen @ [Next hdr os]) @ rest) e"
        by auto
      then show ?thesis using True ok by (simp add: Let_def)
    next
      case False
      then show ?thesis using True "3.prems" here
        by (auto simp: Let_def split: option.splits)
    qed
  next
    case notreg: False
    show ?thesis
    proof (cases "Typeflag hdr = TypeDir")
      case True
      have here: "has_entry ?all (Name hdr) TypeDir"
        using True by (simp add: has_entry_append)
      show ?thesis
      proof (cases "mkdirall_err os")
        case None
        let ?log' = "log @ [MadeDir (Join dir (Name hdr)) fileMode]"
        have "\<forall>e \<in> set ?log'. effect_allowed dir ((seen @ [Next hdr os]) @ rest) e"
          using "3.prems" here by auto
        from "3.IH"(2) [OF refl notreg True None this]
        show ?thesis using notreg True None by (simp add: Let_def)
      next
        case (Some e)
        then show ?thesis using notreg True "3.prems" by (simp add: Let_def)
      qed
    next
      case False
      then show ?thesis using notreg "3.prems" by (simp add: Let_def)
    qed
  qed
qed

lemma created_files_append:
  "created_files (xs @ ys) = created_files xs @ created_files ys"
  by (induction xs rule: created_files.induct) auto

lemma created_files_closed: "created_files (map ClosedFile ps) = []"
  by (induction ps) auto

lemma fileMode_octal: "fileMode = 493"
  by (simp add: fileMode_def)

lemma extract_loop_success_ok:
  "extract_loop dir items log = (Inr d, log') \<Longrightarrow> list_all extracted_ok items \<and> d = dir"
proof (induction dir items log rule: extract_loop.induct)
  case (1 dir log)
  then show ?case by simp
next
  case (2 dir e rest log)
  then show ?case by simp
next
  case (3 dir hdr os rest log)
  show ?case
  proof (cases "Typeflag hdr = TypeReg")
    case True
    with "3.prems" have ok: "create_err os = None" "copy_err os = None" "chmod_err os = None"
      by (auto simp: Let_def split: option.splits)
    from "3.prems" True ok
    have "extract_loop dir rest
        (log @ [CreatedFile (Join dir (Name hdr)), Copied (Join dir (Name hdr)),
                Chmodded (Join dir (Name hdr)) fileMode]) = (Inr d, log')"
      by (simp add: Let_def)
    from "3.IH"(1) [OF refl True ok this] True ok show ?thesis by simp
  next
    case notreg: False
    with "3.prems" have dir: "Typeflag hdr = TypeDir" and ok: "mkdirall_err os = None"
      by (auto simp: Let_def split: option.splits if_splits)
    from "3.prems" notreg dir ok
    have "extract_loop dir rest (log @ [MadeDir (Join dir (Name hdr)) fileMode]) = (Inr d, log')"
      by (simp add: Let_def)
    from "3.IH"(2) [OF refl notreg dir ok this] notreg dir ok show ?thesis by simp
  qed
qed

lemma extract_loop_all_ok:
  "list_all extracted_ok items \<Longrightarrow> fst (extract_loop dir items log) = Inr dir"
proof -
  assume "list_all extracted_ok items"
  then have "\<forall>x \<in> set items. extracted_ok x" by (simp add: list_all_iff)
  from extract_loop_prefix_ok [OF this, of dir "[]" log]
  show ?thesis by auto
qed

lemma other_type_not_ok: "other_type x \<Longrightarrow> \<not> extracted_ok x"
  by (cases x) auto

lemma extract_loop_left:
  "extract_loop dir items log = (r, log') \<Longrightarrow>
   \<forall>p \<in> set (created_files log). Chmodded p fileMode \<in> set log \<Longrightarrow>
   \<forall>p \<in> set (created_files log'). Chmodded p fileMode \<in> set log' \<or> left_by r p"
proof (induction dir items log rule: extract_loop.induct)
  case (1 dir log)
  then show ?case by auto
next
  case (2 dir e rest log)
  then show ?case by auto
next
  case (3 dir hdr os rest log)
  let ?f = "Join dir (Name hdr)"
  show ?case
  proof (cases "Typeflag hdr = TypeReg")
    case True
    show ?thesis
    proof (cases "create_err os = None \<and> copy_err os = None \<and> chmod_err os = None")
      case ok: True
      let ?log' = "log @ [CreatedFile ?f, Copied ?f, Chmodded ?f fileMode]"
      have run: "extract_loop dir rest ?log' = (r, log')"
        using "3.prems"(1) True ok by (simp add: Let_def)
      have inv: "\<forall>p \<in> set (created_files ?log'). Chmodded p fileMode \<in> set ?log'"
        using "3.prems"(2) by (auto simp: created_files_append)
      from ok have ok': "create_err os = None" "copy_err os = None" "chmod_err os = None"
        by simp_all
      from "3.IH"(1) [OF refl True ok' run inv] show ?thesis .
    next
      case False
      with "3.prems" True show ?thesis
        by (auto simp: Let_def created_files_append split: option.splits)
    qed
  next
    case notreg: False
    show ?thesis
    proof (cases "Typeflag hdr = TypeDir \<and> mkdirall_err os = None")
      case ok: True
      let ?log' = "log @ [MadeDir ?f fileMode]"
      have run: "extract_loop dir rest ?log' = (r, log')"
        using "3.prems"(1) notreg ok by (simp add: Let_def)
      have inv: "\<forall>p \<in> set (created_files ?log'). Chmodded p fileMode \<in> set ?log'"
        using "3.prems"(2) by (auto simp: created_files_append)
      from ok have ok': "Typeflag hdr = TypeDir" "mkdirall_err os = None" by simp_all
      from "3.IH"(2) [OF refl notreg ok' run inv] show ?thesis .
    next
      case False
      with "3.prems" notreg show ?thesis
        by (auto simp: Let_def split: option.splits if_splits)
    qed
  qed
qed

text \<open>
  Claim C9, as amended.  The mode that \<^verbatim>\<open>Extract\<close> uses is 0755.  When the loop of
  \<^verbatim>\<open>Extract\<close> reaches an entry whose type flag is neither \<open>TypeReg\<close> nor \<open>TypeDir\<close>, the
  entries before it having been extracted without error, \<^verbatim>\<open>Extract\<close> returns the
  \<open>ErrUntar\<close> error that names this entry.  \<^verbatim>\<open>Extract\<close> returns the directory exactly when
  every entry is a regular file or a directory and is extracted without error, so an
  archive with an entry of another type anywhere never extracts without error.  In every
  run, each thing created under the extraction directory is a file belonging to an entry
  of type \<open>TypeReg\<close> or a directory belonging to an entry of type \<open>TypeDir\<close>, at the joined
  path, directories with mode 0755.  Every file created has been given mode 0755, but for
  the file at which the run ended because copying into it or changing its mode failed.
\<close>

theorem Extract_files_and_directories:
  "fileMode = 493
   \<and> (list_all extracted_ok pre \<and> Typeflag hdr \<noteq> TypeReg \<and> Typeflag hdr \<noteq> TypeDir \<longrightarrow>
        fst (Extract (Inr (pre @ Next hdr os # post)) (Inr dir)) = Inl (ErrUntar (Name hdr)))
   \<and> (fst (Extract (Inr items) (Inr dir)) = Inr dir \<longleftrightarrow> list_all extracted_ok items)
   \<and> (list_ex other_type items \<longrightarrow> isl (fst (Extract (Inr items) (Inr dir))))
   \<and> (\<forall>e \<in> set (snd (Extract (Inr items) (Inr dir))). effect_allowed dir items e)
   \<and> (\<forall>p \<in> set (created_files (snd (Extract (Inr items) (Inr dir)))).
         Chmodded p 493 \<in> set (snd (Extract (Inr items) (Inr dir)))
         \<or> left_by (fst (Extract (Inr items) (Inr dir))) p)"
proof (intro conjI impI)
  show "fileMode = 493" by (rule fileMode_octal)
next
  assume h: "list_all extracted_ok pre \<and> Typeflag hdr \<noteq> TypeReg \<and> Typeflag hdr \<noteq> TypeDir"
  then have "\<forall>x \<in> set pre. extracted_ok x" by (simp add: list_all_iff)
  then obtain log' where
    "extract_loop dir (pre @ Next hdr os # post) [] = extract_loop dir (Next hdr os # post) log'"
    using extract_loop_prefix_ok [of pre dir "Next hdr os # post" "[]"] by blast
  with h have "fst (extract_loop dir (pre @ Next hdr os # post) []) = Inl (ErrUntar (Name hdr))"
    by (simp add: Let_def)
  then show "fst (Extract (Inr (pre @ Next hdr os # post)) (Inr dir)) = Inl (ErrUntar (Name hdr))"
    by (cases "extract_loop dir (pre @ Next hdr os # post) []") (simp add: Extract_def)
next
  obtain r log where run: "extract_loop dir items [] = (r, log)"
    by (cases "extract_loop dir items []")
  then have fst_eq: "fst (Extract (Inr items) (Inr dir)) = r"
    by (simp add: Extract_def)
  show iff: "fst (Extract (Inr items) (Inr dir)) = Inr dir \<longleftrightarrow> list_all extracted_ok items"
  proof
    assume "fst (Extract (Inr items) (Inr dir)) = Inr dir"
    with fst_eq run have "extract_loop dir items [] = (Inr dir, log)" by simp
    from extract_loop_success_ok [OF this] show "list_all extracted_ok items" by simp
  next
    assume "list_all extracted_ok items"
    from extract_loop_all_ok [OF this, of dir "[]"] run fst_eq
    show "fst (Extract (Inr items) (Inr dir)) = Inr dir" by simp
  qed
  show "isl (fst (Extract (Inr items) (Inr dir)))" if "list_ex other_type items"
  proof (cases r)
    case (Inl e)
    with fst_eq show ?thesis by simp
  next
    case (Inr d)
    with run have "extract_loop dir items [] = (Inr d, log)" by simp
    from extract_loop_success_ok [OF this] have "list_all extracted_ok items" by simp
    with that other_type_not_ok show ?thesis
      by (auto simp: list_all_iff list_ex_iff)
  qed
  have loop: "\<forall>e \<in> set (snd (extract_loop dir items [])). effect_allowed dir items e"
    using extract_loop_effects [of "[]" dir "[]" items] by simp
  have closes: "\<forall>e \<in> set (deferred_closes l). effect_allowed dir items e" for l
    by (auto simp: deferred_closes_def)
  show "\<forall>e \<in> set (snd (Extract (Inr items) (Inr dir))). effect_allowed dir items e"
    using loop closes by (auto simp: Extract_def split: prod.splits)
  have inv: "\<forall>p \<in> set (created_files log). Chmodded p fileMode \<in> set log \<or> left_by r p"
    using extract_loop_left [OF run] by simp
  have no_new: "created_files (deferred_closes log) = []"
    by (simp add: deferred_closes_def created_files_append created_files_closed)
  show "\<forall>p \<in> set (created_files (snd (Extract (Inr items) (Inr dir)))).
         Chmodded p 493 \<in> set (snd (Extract (Inr items) (Inr dir)))
         \<or> left_by (fst (Extract (Inr items) (Inr dir))) p"
    using inv no_new run fileMode_octal by (auto simp: Extract_def created_files_append)
qed


text \<open>
  The theorem on the archive of the examples, which is cut short by a symbolic link, on
  its first two entries, and on an archive of two symbolic links.
\<close>

theorem Extract_files_and_directories_witness:
  "list_all extracted_ok (take 2 sample_archive)
   \<and> TypeSymlink \<noteq> TypeReg \<and> TypeSymlink \<noteq> TypeDir
   \<and> fst (Extract (Inr sample_archive) (Inr ''/tmp/aci'')) = Inl (ErrUntar ''rootfs/link'')
   \<and> list_ex other_type two_links
   \<and> isl (fst (Extract (Inr two_links) (Inr ''/tmp/aci'')))
   \<and> CreatedFile (Join ''/tmp/aci'' ''manifest'') \<in> set (snd (Extract (Inr sample_archive) (Inr ''/tmp/aci'')))
   \<and> effect_allowed ''/tmp/aci'' sample_archive (CreatedFile (Join ''/tmp/aci'' ''manifest''))
   \<and> fst (Extract (Inr (take 2 sample_archive)) (Inr ''/tmp/aci'')) = Inr ''/tmp/aci''
   \<and> Chmodded (Join ''/tmp/aci'' ''manifest'') 493
        \<in> set (snd (Extract (Inr (take 2 sample_archive)) (Inr ''/tmp/aci'')))
   \<and> left_by (fst (Extract (Inr copy_fails) (Inr ''/tmp/aci''))) (Join ''/tmp/aci'' ''manifest'')"
proof -
  have pre: "list_all extracted_ok (take 2 sample_archive)"
    by (simp add: sample_archive_def ok_results_def TypeReg_def TypeDir_def)
  have flags: "TypeSymlink \<noteq> TypeReg \<and> TypeSymlink \<noteq> TypeDir"
    by (simp add: TypeSymlink_def TypeReg_def TypeDir_def)
  have split: "sample_archive =
      take 2 sample_archive @ Next (Header ''rootfs/link'' TypeSymlink) ok_results
        # [Next (Header ''rootfs/later'' TypeReg) ok_results]"
    by (simp add: sample_archive_def)
  have links: "list_ex other_type two_links"
    by (simp add: two_links_def TypeSymlink_def TypeReg_def TypeDir_def)
  have made: "CreatedFile (Join ''/tmp/aci'' ''manifest'')
      \<in> set (snd (Extract (Inr sample_archive) (Inr ''/tmp/aci'')))"
    by (simp add: sample_archive_def ok_results_def Extract_def Let_def TypeReg_def TypeDir_def
        TypeSymlink_def)
  have in2: "Join ''/tmp/aci'' ''manifest''
      \<in> set (created_files (snd (Extract (Inr (take 2 sample_archive)) (Inr ''/tmp/aci''))))"
    by (simp add: sample_archive_def ok_results_def Extract_def Let_def TypeReg_def TypeDir_def
        deferred_closes_def)
  have notleft: "\<not> left_by (Inr ''/tmp/aci'') (Join ''/tmp/aci'' ''manifest'')"
    by simp
  have left: "left_by (fst (Extract (Inr copy_fails) (Inr ''/tmp/aci''))) (Join ''/tmp/aci'' ''manifest'')"
    by (simp add: copy_fails_def ok_results_def Extract_def Let_def TypeReg_def)
  note inst = Extract_files_and_directories
    [of "take 2 sample_archive" "Header ''rootfs/link'' TypeSymlink" ok_results
        "[Next (Header ''rootfs/later'' TypeReg) ok_results]" "''/tmp/aci''"]
  have first: "fst (Extract (Inr sample_archive) (Inr ''/tmp/aci'')) = Inl (ErrUntar ''rootfs/link'')"
    using inst [of sample_archive] pre flags split by simp
  have err: "isl (fst (Extract (Inr two_links) (Inr ''/tmp/aci'')))"
    using inst [of two_links] links by blast
  have second: "effect_allowed ''/tmp/aci'' sample_archive (CreatedFile (Join ''/tmp/aci'' ''manifest''))"
    using inst [of sample_archive] made by blast
  have ok2: "fst (Extract (Inr (take 2 sample_archive)) (Inr ''/tmp/aci'')) = Inr ''/tmp/aci''"
    using inst [of "take 2 sample_archive"] pre by blast
  have third: "Chmodded (Join ''/tmp/aci'' ''manifest'') 493
      \<in> set (snd (Extract (Inr (take 2 sample_archive)) (Inr ''/tmp/aci'')))"
    using inst [of "take 2 sample_archive"] ok2 in2 notleft by force
  show ?thesis using pre flags first links err made second ok2 third left by blast
qed

text \<open>
  The claim as first stated names every entry of another type and gives every regular
  file mode 0755.  Of two symbolic links only the first is named, as the loop returns
  there; and a file whose copy fails has been created and keeps the mode that
  \<^verbatim>\<open>os.Create\<close> gave it.
\<close>

theorem Extract_always_0755_and_named_counterexample:
  "list_ex other_type two_links
   \<and> fst (Extract (Inr two_links) (Inr ''/tmp/aci'')) \<noteq> Inl (ErrUntar ''b'')
   \<and> CreatedFile (Join ''/tmp/aci'' ''manifest'')
        \<in> set (snd (Extract (Inr copy_fails) (Inr ''/tmp/aci'')))
   \<and> Chmodded (Join ''/tmp/aci'' ''manifest'') 493
        \<notin> set (snd (Extract (Inr copy_fails) (Inr ''/tmp/aci'')))"
  by (simp add: two_links_def copy_fails_def ok_results_def Extract_def Let_def
      deferred_closes_def TypeSymlink_def TypeReg_def TypeDir_def)

text \<open>
  Claim C10.  When \<^verbatim>\<open>NewCompressedTarReader\<close> fails, \<^verbatim>\<open>Validate\<close> does not return the
  error: the \<^verbatim>\<open>Close\<close> that was deferred before the error check runs on the nil reader
  and the call panics.  \<^verbatim>\<open>Extract\<close> on the same input returns the error.
\<close>

theorem Validate_open_error_panics:
  "Validate (Inl err) ValidateArchive = Panicked nil_dereference
   \<and> Validate (Inl err) ValidateArchive \<noteq> Returned (Some err)
   \<and> Extract (Inl err) tmp = (Inl (OpenError err), [])"
  by (simp add: Validate_def run_deferred_Close_def Extract_def)

section \<open>Properties of Config.UnmarshalJSON\<close>

lemma unrecognised_step:
  "k \<notin> set recognised_keys \<Longrightarrow>
   unmarshal_fields dec ((k, v) # kvs) c = (Some (UnrecognizedKey k), c)"
  by (simp add: recognised_keys_def)

lemma recognised_cases:
  "k \<in> set recognised_keys \<Longrightarrow>
   k = ''max_running_plugins'' \<or> k = ''plugin_load_timeout'' \<or> k = ''plugin_trust_level'' \<or>
   k = ''auto_discover_path'' \<or> k = ''keyring_paths'' \<or> k = ''cache_expiration'' \<or>
   k = ''plugins'' \<or> k = ''listen_addr'' \<or> k = ''listen_port''"
  by (simp add: recognised_keys_def)

lemma key_ok_step:
  assumes "key_ok dec (k, v)"
  shows "\<exists>c'. unmarshal_fields dec ((k, v) # kvs) c = unmarshal_fields dec kvs c'"
proof -
  from assms have k: "k \<in> set recognised_keys" and p: "parses dec k v"
    by simp_all
  from recognised_cases [OF k] show ?thesis
  proof (elim disjE)
    assume "k = ''max_running_plugins''"
    with p show ?thesis by (auto simp: parses_def split: sum.splits)
  next
    assume "k = ''plugin_load_timeout''"
    with p show ?thesis by (auto simp: parses_def split: sum.splits)
  next
    assume "k = ''plugin_trust_level''"
    with p show ?thesis by (auto simp: parses_def split: sum.splits)
  next
    assume "k = ''auto_discover_path''"
    with p show ?thesis by (auto simp: parses_def split: sum.splits)
  next
    assume "k = ''keyring_paths''"
    with p show ?thesis by (auto simp: parses_def split: sum.splits)
  next
    assume "k = ''cache_expiration''"
    with p show ?thesis by (auto simp: parses_def split: sum.splits)
  next
    assume "k = ''plugins''"
    with p show ?thesis by (auto simp: parses_def split: sum.splits)
  next
    assume "k = ''listen_addr''"
    with p show ?thesis by (auto simp: parses_def split: sum.splits)
  next
    assume "k = ''listen_port''"
    with p show ?thesis by (auto simp: parses_def split: sum.splits)
  qed
qed

lemma not_parses_step:
  assumes "k \<in> set recognised_keys" and "\<not> parses dec k v"
  shows "fst (unmarshal_fields dec ((k, v) # kvs) c) \<noteq> None
       \<and> fst (unmarshal_fields dec ((k, v) # kvs) c) \<noteq> Some (UnrecognizedKey k')"
proof -
  note p = assms(2)
  from recognised_cases [OF assms(1)] show ?thesis
  proof (elim disjE)
    assume "k = ''max_running_plugins''"
    with p show ?thesis by (auto simp: parses_def split: sum.splits)
  next
    assume "k = ''plugin_load_timeout''"
    with p show ?thesis by (auto simp: parses_def split: sum.splits)
  next
    assume "k = ''plugin_trust_level''"
    with p show ?thesis by (auto simp: parses_def split: sum.splits)
  next
    assume "k = ''auto_discover_path''"
    with p show ?thesis by (auto simp: parses_def split: sum.splits)
  next
    assume "k = ''keyring_paths''"
    with p show ?thesis by (auto simp: parses_def split: sum.splits)
  next
    assume "k = ''cache_expiration''"
    with p show ?thesis by (auto simp: parses_def split: sum.splits)
  next
    assume "k = ''plugins''"
    with p show ?thesis by (auto simp: parses_def split: sum.splits)
  next
    assume "k = ''listen_addr''"
    with p show ?thesis by (auto simp: parses_def split: sum.splits)
  next
    assume "k = ''listen_port''"
    with p show ?thesis by (auto simp: parses_def split: sum.splits)
  qed
qed


declare unmarshal_fields.simps [simp del]

lemma unmarshal_fields_prefix:
  "list_all (key_ok dec) pre \<Longrightarrow>
   \<exists>c'. unmarshal_fields dec (pre @ rest) c = unmarshal_fields dec rest c'"
proof (induction pre arbitrary: c)
  case Nil
  then show ?case by auto
next
  case (Cons kv pre)
  obtain k v where kv: "kv = (k, v)" by (cases kv)
  from Cons.prems have here: "key_ok dec (k, v)" and rest: "list_all (key_ok dec) pre"
    by (simp_all add: kv)
  from key_ok_step [OF here, of "pre @ rest" c] obtain c1 where
    "unmarshal_fields dec ((k, v) # pre @ rest) c = unmarshal_fields dec (pre @ rest) c1"
    by blast
  with Cons.IH [OF rest, of c1] show ?case by (simp add: kv)
qed

lemma unmarshal_fields_nil_iff:
  "fst (unmarshal_fields dec t c) = None \<longleftrightarrow> list_all (key_ok dec) t"
proof (induction t arbitrary: c)
  case Nil
  then show ?case by (simp add: unmarshal_fields.simps)
next
  case (Cons kv t)
  obtain k v where kv: "kv = (k, v)" by (cases kv)
  show ?case
  proof (cases "key_ok dec (k, v)")
    case True
    from key_ok_step [OF True, of t c] obtain c1 where
      "unmarshal_fields dec ((k, v) # t) c = unmarshal_fields dec t c1"
      by blast
    with Cons.IH [of c1] True show ?thesis by (simp add: kv)
  next
    case False
    have "fst (unmarshal_fields dec ((k, v) # t) c) \<noteq> None"
    proof (cases "k \<in> set recognised_keys")
      case True
      with False have "\<not> parses dec k v" by simp
      with True show ?thesis using not_parses_step [of k dec v t c] by blast
    next
      case False
      then show ?thesis by (simp add: unrecognised_step)
    qed
    with False show ?thesis by (auto simp: kv)
  qed
qed

text \<open>
  Claim C8, as amended.  For a JSON object, \<^verbatim>\<open>UnmarshalJSON\<close> returns \<^verbatim>\<open>nil\<close> exactly
  when every key present is one of the nine recognised keys and its value decodes.  An
  object with a key outside that set is never accepted silently: an error is returned.
  The error names the unrecognised key when every key the loop met before it was
  recognised and decoded; the loop returns at the first key that fails, so a second
  unrecognised key, or an unrecognised key met after a value that does not decode, is
  not named.
\<close>

theorem UnmarshalJSON_unrecognised_key:
  "(fst (UnmarshalJSON dec (Inr t) c) = None \<longleftrightarrow> list_all (key_ok dec) t)
   \<and> (list_ex (\<lambda>kv. fst kv \<notin> set recognised_keys) t \<longrightarrow>
        fst (UnmarshalJSON dec (Inr t) c) \<noteq> None)
   \<and> (list_all (key_ok dec) pre \<and> k \<notin> set recognised_keys \<longrightarrow>
        fst (UnmarshalJSON dec (Inr (pre @ (k, v) # post)) c) = Some (UnrecognizedKey k))"
proof (intro conjI impI)
  show iff: "fst (UnmarshalJSON dec (Inr t) c) = None \<longleftrightarrow> list_all (key_ok dec) t"
    by (simp add: UnmarshalJSON_def unmarshal_fields_nil_iff)
  show "fst (UnmarshalJSON dec (Inr t) c) \<noteq> None"
    if "list_ex (\<lambda>kv. fst kv \<notin> set recognised_keys) t"
  proof -
    from that obtain k v where "(k, v) \<in> set t" and "k \<notin> set recognised_keys"
      by (auto simp: list_ex_iff)
    then have "(k, v) \<in> set t" and "\<not> key_ok dec (k, v)"
      by simp_all
    then have "\<not> list_all (key_ok dec) t"
      unfolding list_all_iff by blast
    with iff show ?thesis by simp
  qed
  show "fst (UnmarshalJSON dec (Inr (pre @ (k, v) # post)) c) = Some (UnrecognizedKey k)"
    if "list_all (key_ok dec) pre \<and> k \<notin> set recognised_keys"
  proof -
    from that unmarshal_fields_prefix [of dec pre "(k, v) # post" c] obtain c1 where
      "unmarshal_fields dec (pre @ (k, v) # post) c = unmarshal_fields dec ((k, v) # post) c1"
      by blast
    with that show ?thesis
      by (simp add: UnmarshalJSON_def unrecognised_step)
  qed
qed

text \<open>
  The theorem at an object with the keys \<^verbatim>\<open>listen_port\<close> and \<^verbatim>\<open>bogus\<close>.
\<close>

theorem UnmarshalJSON_unrecognised_key_witness:
  "list_all (key_ok sample_decoder) [(''listen_port'', JNumber 9000)]
   \<and> ''bogus'' \<notin> set recognised_keys
   \<and> fst (UnmarshalJSON sample_decoder
        (Inr [(''listen_port'', JNumber 9000), (''bogus'', JNull)]) GetDefaultConfig)
       = Some (UnrecognizedKey ''bogus'')
   \<and> fst (UnmarshalJSON sample_decoder (Inr [(''listen_port'', JNumber 9000)]) GetDefaultConfig)
       = None
   \<and> fst (UnmarshalJSON sample_decoder
        (Inr [(''listen_port'', JNumber 9000), (''bogus'', JNull)]) GetDefaultConfig) \<noteq> None"
proof -
  have ok: "list_all (key_ok sample_decoder) [(''listen_port'', JNumber 9000)]"
    by (simp add: recognised_keys_def parses_def sample_decoder_def)
  have unk: "''bogus'' \<notin> set recognised_keys"
    by (simp add: recognised_keys_def)
  have ex: "list_ex (\<lambda>kv. fst kv \<notin> set recognised_keys)
      [(''listen_port'', JNumber 9000), (''bogus'', JNull)]"
    using unk by simp
  note inst = UnmarshalJSON_unrecognised_key
    [of sample_decoder _ GetDefaultConfig "[(''listen_port'', JNumber 9000)]" "''bogus''" JNull "[]"]
  from inst [of "[(''listen_port'', JNumber 9000)]"] ok unk
  have a: "fst (UnmarshalJSON sample_decoder
        (Inr [(''listen_port'', JNumber 9000), (''bogus'', JNull)]) GetDefaultConfig)
       = Some (UnrecognizedKey ''bogus'')"
    and b: "fst (UnmarshalJSON sample_decoder (Inr [(''listen_port'', JNumber 9000)])
        GetDefaultConfig) = None"
    by simp_all
  from inst [of "[(''listen_port'', JNumber 9000), (''bogus'', JNull)]"] ex
  have c: "fst (UnmarshalJSON sample_decoder
        (Inr [(''listen_port'', JNumber 9000), (''bogus'', JNull)]) GetDefaultConfig) \<noteq> None"
    by blast
  show ?thesis using ok unk a b c by blast
qed

text \<open>
  The claim as first stated asks that the error names every unrecognised key of the
  object.  With the keys \<^verbatim>\<open>zz\<close> and \<^verbatim>\<open>qq\<close>, in either order one of the two is not
  named; and when \<^verbatim>\<open>max_running_plugins\<close> holds a string and is met first, the error
  is the decoding error and \<^verbatim>\<open>bogus\<close> is not named.
\<close>

theorem UnmarshalJSON_names_every_key_counterexample:
  "''qq'' \<notin> set recognised_keys
   \<and> fst (UnmarshalJSON sample_decoder (Inr [(''zz'', JNull), (''qq'', JNull)]) GetDefaultConfig)
       \<noteq> Some (UnrecognizedKey ''qq'')
   \<and> ''zz'' \<notin> set recognised_keys
   \<and> fst (UnmarshalJSON sample_decoder (Inr [(''qq'', JNull), (''zz'', JNull)]) GetDefaultConfig)
       \<noteq> Some (UnrecognizedKey ''zz'')
   \<and> ''bogus'' \<notin> set recognised_keys
   \<and> fst (UnmarshalJSON sample_decoder
        (Inr [(''max_running_plugins'', JString ''three''), (''bogus'', JNull)]) GetDefaultConfig)
       = Some (WhileParsing type_error ''control::max_running_plugins'')"
  by (simp add: recognised_keys_def UnmarshalJSON_def unmarshal_fields.simps sample_decoder_def)

section \<open>Properties of the task handlers\<close>

lemma delivered_tags_eq:
  "delivered_tags = {TaskStarted, TaskStopped, TaskDisabled, MetricsCollected}"
proof
  show "delivered_tags \<subseteq> {TaskStarted, TaskStopped, TaskDisabled, MetricsCollected}"
  proof
    fix t assume "t \<in> delivered_tags"
    then obtain c :: "unit catch_call" where "tag_of (EventType (sent_for c)) = Some t"
      by (auto simp: delivered_tags_def)
    then show "t \<in> {TaskStarted, TaskStopped, TaskDisabled, MetricsCollected}"
      by (cases c)
        (auto simp: CatchCollection_def CatchTaskStarted_def CatchTaskStopped_def
          CatchTaskDisabled_def)
  qed
  have "tag_of (EventType (sent_for (CallCatchTaskStarted :: unit catch_call))) = Some TaskStarted"
    by (simp add: CatchTaskStarted_def)
  moreover
  have "tag_of (EventType (sent_for (CallCatchTaskStopped :: unit catch_call))) = Some TaskStopped"
    by (simp add: CatchTaskStopped_def)
  moreover
  have "tag_of (EventType (sent_for (CallCatchTaskDisabled [] :: unit catch_call))) = Some TaskDisabled"
    by (simp add: CatchTaskDisabled_def)
  moreover
  have "tag_of (EventType (sent_for (CallCatchCollection [] :: unit catch_call))) = Some MetricsCollected"
    by (simp add: CatchCollection_def)
  ultimately
  show "{TaskStarted, TaskStopped, TaskDisabled, MetricsCollected} \<subseteq> delivered_tags"
    unfolding delivered_tags_def by blast
qed

text \<open>
  Claim C6, as amended.  The events that \<^verbatim>\<open>TaskWatchHandler\<close> delivers are exactly of the
  four kinds TaskStarted, TaskStopped, TaskDisabled (with its reason as the message) and
  MetricsCollected; TaskEnabled, though listed on the wire surface, is not among them.
  An event for a collection carries, for every metric of the batch and in the same
  order, its namespace, data, timestamp and tags.
\<close>

theorem TaskWatchHandler_delivers:
  "delivered_tags = {TaskStarted, TaskStopped, TaskDisabled, MetricsCollected}
   \<and> TaskEnabled \<notin> delivered_tags
   \<and> Message (sent_for (CallCatchTaskDisabled why)) = why
   \<and> EventType (sent_for (CallCatchCollection m)) = TaskWatchMetricEvent
   \<and> map (\<lambda>s. (Namespace s, Data s, Timestamp s, Tags s)) (Event (sent_for (CallCatchCollection m)))
       = map (\<lambda>x. (metric_Namespace x, metric_Data x, metric_Timestamp x, metric_Tags x)) m"
  by (simp add: delivered_tags_eq CatchTaskDisabled_def CatchCollection_def comp_def)

text \<open>
  The claim as first stated counts TaskEnabled among the delivered events.  The handler
  has no method that sends it.
\<close>

theorem TaskEnabled_delivered_counterexample:
  "TaskEnabled \<notin> delivered_tags"
  by (simp add: delivered_tags_eq)


section \<open>Properties of the scheduler\<close>

lemma Contains_self: "strings_Contains s s"
  by (cases s) auto

lemma disabled_text_not_found:
  "\<not> strings_Contains ErrTaskDisabledNotRunnable ErrTaskNotFound"
  by (simp add: ErrTaskDisabledNotRunnable_def ErrTaskNotFound_def)

lemma unsubscribe_all_counts:
  "unsubscribe_all ks rm = (errs, rm', calls) \<Longrightarrow>
     subscribe_calls calls a = 0 \<and> successful_subscribes calls a = 0
   \<and> unsubscribe_calls calls a = (if rm a = None then 0 else count_list ks a)
   \<and> rm' a = map_option
        (\<lambda>m. m\<lparr>UnsubscribeCallCount := UnsubscribeCallCount m + of_nat (count_list ks a)\<rparr>)
        (rm a)"
proof (induction ks arbitrary: rm errs rm' calls)
  case Nil
  then show ?case by (cases "rm a") auto
next
  case (Cons k ks)
  show ?case
  proof (cases "rm k")
    case None
    with Cons.prems have rest: "unsubscribe_all ks rm = (errs, rm', calls)" by simp
    from Cons.IH [OF rest] None show ?thesis
      by (cases "rm a") auto
  next
    case (Some m)
    let ?m = "m\<lparr>UnsubscribeCallCount := UnsubscribeCallCount m + 1\<rparr>"
    obtain es r cs where rest: "unsubscribe_all ks (rm(k \<mapsto> ?m)) = (es, r, cs)"
      by (cases "unsubscribe_all ks (rm(k \<mapsto> ?m))")
    with Cons.prems Some have res: "rm' = r" "calls = UnsubscribeDepsCall k # cs"
      by (simp_all add: UnsubscribeDeps_def)
    from Cons.IH [OF rest] Some res show ?thesis
      by (cases "rm a") (auto simp: add.assoc add.commute)
  qed
qed

lemma unsubscribe_all_dom:
  "unsubscribe_all ks rm = (errs, rm', calls) \<Longrightarrow> (rm' a = None) = (rm a = None)"
  using unsubscribe_all_counts [of ks rm errs rm' calls a] by (cases "rm a") auto







lemma sample_addresses:
  "addresses (dsWFMap ''127.0.0.1:8082'') = [''127.0.0.1:8082'', []]"
  by (simp add: addresses_def dsWFMap_def)

lemma sample_Prepare:
  "fst (Prepare sample_task) = Inl [SubscribeError ''error'']"
  "snd (snd (Prepare sample_task)) = sample_calls"
  "fst (snd (Prepare sample_task)) ''127.0.0.1:8082''
     = Some \<lparr>Fail = False, SubscribeCallCount = 1, UnsubscribeCallCount = 1\<rparr>"
  "fst (snd (Prepare sample_task)) []
     = Some \<lparr>Fail = True, SubscribeCallCount = 0, UnsubscribeCallCount = 1\<rparr>"
  by (simp_all add: Prepare_def sample_task_def sample_addresses fresh_manager_def
      SubscribeDeps_def UnsubscribeDeps_def sample_calls_def)


text \<open>
  Claim C4.  \<^verbatim>\<open>StartTask\<close> on a disabled task returns the single error
  TaskDisabledNotRunnable and leaves the scheduler as it was, and the handler of package
  \<^verbatim>\<open>rest\<close> answers it with 409; an unknown id gives TaskNotFound, no change, and 404.
  Whenever \<^verbatim>\<open>StartTask\<close> changes anything (managers subscribed, task spinning), the
  task exists and is not disabled.
\<close>

theorem StartTask_disabled_refused:
  "(tasks s tid = Some t \<and> task_state t = Disabled \<longrightarrow>
      StartTask s tid = ([TaskDisabledNotRunnable], s)
    \<and> startTask (map Error (fst (StartTask s tid))) = 409)
   \<and> (tasks s tid = None \<longrightarrow>
        StartTask s tid = ([TaskNotFound], s)
      \<and> startTask (map Error (fst (StartTask s tid))) = 404)
   \<and> (snd (StartTask s tid) \<noteq> s \<longrightarrow>
        (\<exists>t. tasks s tid = Some t \<and> task_state t \<noteq> Disabled))"
proof (intro conjI impI)
  assume "tasks s tid = Some t \<and> task_state t = Disabled"
  then show "StartTask s tid = ([TaskDisabledNotRunnable], s)"
    by (simp add: StartTask_def)
  then show "startTask (map Error (fst (StartTask s tid))) = 409"
    by (simp add: startTask_def disabled_text_not_found Contains_self)
next
  assume "tasks s tid = None"
  then show "StartTask s tid = ([TaskNotFound], s)"
    by (simp add: StartTask_def)
  then show "startTask (map Error (fst (StartTask s tid))) = 404"
    by (simp add: startTask_def Contains_self)
next
  assume changed: "snd (StartTask s tid) \<noteq> s"
  show "\<exists>t. tasks s tid = Some t \<and> task_state t \<noteq> Disabled"
  proof (cases "tasks s tid")
    case None
    with changed show ?thesis by (simp add: StartTask_def)
  next
    case (Some t)
    with changed have "task_state t \<noteq> Disabled"
      by (auto simp: StartTask_def)
    with Some show ?thesis by simp
  qed
qed

text \<open>
  The theorem at the scheduler of the examples: the disabled task, an id that is not in
  the table, and the task that is not disabled, whose start reaches the managers.
\<close>

theorem StartTask_disabled_refused_witness:
  "tasks sample_scheduler ''t2'' = Some (sample_task\<lparr>task_state := Disabled\<rparr>)
   \<and> StartTask sample_scheduler ''t2'' = ([TaskDisabledNotRunnable], sample_scheduler)
   \<and> startTask (map Error (fst (StartTask sample_scheduler ''t2''))) = 409
   \<and> tasks sample_scheduler ''t3'' = None
   \<and> startTask (map Error (fst (StartTask sample_scheduler ''t3''))) = 404
   \<and> snd (StartTask sample_scheduler ''t1'') \<noteq> sample_scheduler
   \<and> task_state sample_task \<noteq> Disabled"
proof -
  have t2: "tasks sample_scheduler ''t2'' = Some (sample_task\<lparr>task_state := Disabled\<rparr>)"
    and t3: "tasks sample_scheduler ''t3'' = None"
    and t1: "tasks sample_scheduler ''t1'' = Some sample_task"
    by (simp_all add: sample_scheduler_def)
  have st: "task_state sample_task \<noteq> Disabled"
    by (simp add: sample_task_def)
  note a = StartTask_disabled_refused
    [of sample_scheduler "''t2''" "sample_task\<lparr>task_state := Disabled\<rparr>"]
  note b = StartTask_disabled_refused [of sample_scheduler "''t3''"]
  obtain r rm' calls where p: "Prepare sample_task = (r, rm', calls)"
    by (cases "Prepare sample_task")
  with sample_Prepare have r: "r = Inl [SubscribeError ''error'']"
    and rm: "rm' ''127.0.0.1:8082''
       = Some \<lparr>Fail = False, SubscribeCallCount = 1, UnsubscribeCallCount = 1\<rparr>"
    by simp_all
  from t1 st p r have run: "snd (StartTask sample_scheduler ''t1'') =
       sample_scheduler\<lparr>tasks := (tasks sample_scheduler)
          (''t1'' \<mapsto> sample_task\<lparr>RemoteManagers := rm'\<rparr>)\<rparr>"
    by (simp add: StartTask_def)
  have "RemoteManagers (the (tasks (snd (StartTask sample_scheduler ''t1'')) ''t1''))
      ''127.0.0.1:8082'' \<noteq> RemoteManagers (the (tasks sample_scheduler ''t1'')) ''127.0.0.1:8082''"
    using run rm t1 by (simp add: sample_task_def fresh_manager_def)
  then have changed: "snd (StartTask sample_scheduler ''t1'') \<noteq> sample_scheduler"
    by auto
  have d: "task_state (sample_task\<lparr>task_state := Disabled\<rparr>) = Disabled"
    by simp
  from a t2 d have a1: "StartTask sample_scheduler ''t2'' = ([TaskDisabledNotRunnable], sample_scheduler)"
    and a2: "startTask (map Error (fst (StartTask sample_scheduler ''t2''))) = 409"
    by blast+
  from b t3 have b2: "startTask (map Error (fst (StartTask sample_scheduler ''t3''))) = 404"
    by blast
  from t2 a1 a2 t3 b2 changed st show ?thesis by blast
qed

end
